theory Spec2Isabelle
  imports Main "HOL-Library.Sublist" "HOL-Library.Product_Lexorder"
begin

section \<open>The KEV dashboard: data model\<close>

text \<open>
  The program (\<^verbatim>\<open>main.py\<close>) loads a CSV of known exploited vulnerabilities into a pandas
  DataFrame \<^verbatim>\<open>df\<close> once, and the callback \<^verbatim>\<open>update_graph\<close> filters a copy of it and
  counts the remaining rows per calendar month.

  A pandas Timestamp is modelled by its calendar fields. The CSV holds dates without a
  time of day, and the program reads only the year (\<^verbatim>\<open>.dt.year\<close>) and the year and month
  (\<^verbatim>\<open>.dt.to_period('M')\<close>) of a Timestamp.
\<close>

record timestamp =
  year :: int
  month :: int
  day :: int

text \<open>A monthly period (\<^verbatim>\<open>Period[M]\<close>) is a calendar year and month, ordered by year and then
  by month.\<close>

type_synonym period = "int \<times> int"

text \<open>
  One row of \<^verbatim>\<open>df\<close> after loading. A missing cell (pandas NaN) of a text column is
  \<open>None\<close>. The column \<^verbatim>\<open>dateAdded\<close> holds no missing value after line 9, and the column
  \<^verbatim>\<open>knownRansomwareCampaignUse\<close> holds a string in every row after line 12.
\<close>

record kev_record =
  dateAdded :: timestamp
  vendorProject :: "string option"
  cwes :: "string option"
  knownRansomwareCampaignUse :: string

text \<open>One row of the CSV file as \<^verbatim>\<open>read_csv\<close> returns it: every cell is text or missing.\<close>

record csv_row =
  csv_dateAdded :: "string option"
  csv_vendorProject :: "string option"
  csv_cwes :: "string option"
  csv_knownRansomwareCampaignUse :: "string option"

section \<open>Python and pandas operations used by the program\<close>

text \<open>\<^verbatim>\<open>str(x)\<close> of a cell: the text itself, and \<^verbatim>\<open>'nan'\<close> for the missing value (a float NaN).\<close>

definition py_str :: "string option \<Rightarrow> string" where
  "py_str x = (case x of None \<Rightarrow> ''nan'' | Some s \<Rightarrow> s)"

text \<open>\<^verbatim>\<open>a in b\<close> on strings: \<open>a\<close> occurs in \<open>b\<close> as a contiguous run of characters, at the
  start of \<open>b\<close> or somewhere in its tail.\<close>

fun py_in :: "string \<Rightarrow> string \<Rightarrow> bool" where
  "py_in a [] = (a = [])"
| "py_in a (c # cs) = (prefix a (c # cs) \<or> py_in a cs)"

text \<open>
  \<^verbatim>\<open>str.strip()\<close> and \<^verbatim>\<open>str.lower()\<close>, on ASCII text: the characters of \<open>string\<close> are
  bytes, and the characters that Python strips or maps to lower case outside ASCII are not
  modelled.
\<close>

definition is_space :: "char \<Rightarrow> bool" where
  "is_space c = (let n = (of_char c :: nat) in (9 \<le> n \<and> n \<le> 13) \<or> (28 \<le> n \<and> n \<le> 32))"

definition str_strip :: "string \<Rightarrow> string" where
  "str_strip s = rev (dropWhile is_space (rev (dropWhile is_space s)))"

definition char_lower :: "char \<Rightarrow> char" where
  "char_lower c = (let n = (of_char c :: nat) in if 65 \<le> n \<and> n \<le> 90 then char_of (n + 32) else c)"

definition str_lower :: "string \<Rightarrow> string" where
  "str_lower s = map char_lower s"

text \<open>
  A value that a multi-select dropdown passes to the callback: \<^verbatim>\<open>None\<close> while
  nothing was ever selected, and a list afterwards. \<^verbatim>\<open>if selected:\<close> is Python's truth
  test: \<^verbatim>\<open>None\<close> and the empty list are false.
\<close>

fun truthy :: "'a list option \<Rightarrow> bool" where
  "truthy None = False"
| "truthy (Some xs) = (xs \<noteq> [])"

fun values_of :: "'a list option \<Rightarrow> 'a list" where
  "values_of None = []"
| "values_of (Some xs) = xs"

text \<open>
  \<^verbatim>\<open>Series.isin(values)\<close> on one cell of a text column: a missing cell is in no list of
  strings.
\<close>

definition isin_text :: "string option \<Rightarrow> string list \<Rightarrow> bool" where
  "isin_text x vs = (case x of None \<Rightarrow> False | Some v \<Rightarrow> v \<in> set vs)"

text \<open>\<^verbatim>\<open>.dt.to_period('M')\<close> and \<^verbatim>\<open>.dt.to_timestamp()\<close>: the month of a Timestamp, and the
  Timestamp of the first day of a month.\<close>

definition to_period_M :: "timestamp \<Rightarrow> period" where
  "to_period_M t = (year t, month t)"

definition to_timestamp :: "period \<Rightarrow> timestamp" where
  "to_timestamp p = \<lparr>year = fst p, month = snd p, day = 1\<rparr>"

text \<open>
  \<^verbatim>\<open>groupby(keys).size()\<close>: one entry per distinct key, the keys in ascending order
  (\<^verbatim>\<open>sort=True\<close> is the default), each with the number of rows that have the key.
\<close>

definition groupby_size :: "'k::linorder list \<Rightarrow> ('k \<times> nat) list" where
  "groupby_size ks = map (\<lambda>k. (k, count_list ks k)) (sort (remdups ks))"

section \<open>Loading (lines 7 to 12)\<close>

text \<open>
  \<^verbatim>\<open>pd.to_datetime(..., errors='coerce')\<close> on one cell. The date parser is pandas' own and
  is a parameter \<open>parse\<close> of the model; a cell it cannot parse, and a missing cell, become
  the missing Timestamp \<^verbatim>\<open>NaT\<close>, here \<open>None\<close>.
\<close>

definition to_datetime_coerce :: "(string \<Rightarrow> timestamp option) \<Rightarrow> string option \<Rightarrow> timestamp option" where
  "to_datetime_coerce parse x = (case x of None \<Rightarrow> None | Some s \<Rightarrow> parse s)"

text \<open>Line 12: \<^verbatim>\<open>.astype(str).str.strip().str.lower()\<close> on one cell.\<close>

definition normalize_ransomware :: "string option \<Rightarrow> string" where
  "normalize_ransomware x = str_lower (str_strip (py_str x))"

text \<open>
  Lines 8, 9 and 12 on one row: the row with its date parsed and its ransomware cell
  normalised, or nothing when \<^verbatim>\<open>dropna(subset=['dateAdded'])\<close> drops it.
\<close>

definition load_row :: "(string \<Rightarrow> timestamp option) \<Rightarrow> csv_row \<Rightarrow> kev_record option" where
  "load_row parse r =
     (case to_datetime_coerce parse (csv_dateAdded r) of
        None \<Rightarrow> None
      | Some t \<Rightarrow> Some \<lparr>dateAdded = t,
                        vendorProject = csv_vendorProject r,
                        cwes = csv_cwes r,
                        knownRansomwareCampaignUse =
                          normalize_ransomware (csv_knownRansomwareCampaignUse r)\<rparr>)"

definition load_data :: "(string \<Rightarrow> timestamp option) \<Rightarrow> csv_row list \<Rightarrow> kev_record list" where
  "load_data parse rows = List.map_filter (load_row parse) rows"

section \<open>The callback \<^verbatim>\<open>update_graph\<close> (lines 80 to 108)\<close>

text \<open>
  The value of the local variable \<^verbatim>\<open>filtered_df\<close>: a frame with the columns of \<^verbatim>\<open>df\<close> and
  some of its rows, or a frame that has lost its columns (and has no row).

  The second case comes from line 88. \<^verbatim>\<open>Series.apply\<close> on a Series of length 0 does not
  call the function: it returns an empty Series of the dtype of the column (text), not of
  booleans. \<^verbatim>\<open>filtered_df[key]\<close> with a key that is not a boolean mask selects the columns
  listed in the key, here none, so the result has no column at all. On a Series with at
  least one element \<^verbatim>\<open>apply\<close> returns the booleans that the function returned and line 88
  keeps the rows whose boolean is true.
\<close>

datatype frame = Frame "kev_record list" | NoColumns

datatype py_error = KeyError string

fun frame_rows :: "frame \<Rightarrow> kev_record list" where
  "frame_rows (Frame rows) = rows"
| "frame_rows NoColumns = []"

text \<open>\<^verbatim>\<open>filtered_df.empty\<close>: some axis has length 0.\<close>

fun frame_empty :: "frame \<Rightarrow> bool" where
  "frame_empty (Frame rows) = (rows = [])"
| "frame_empty NoColumns = True"

text \<open>The figure returned to the page: its title and the points of its line.\<close>

record figure =
  title :: string
  points :: "(timestamp \<times> nat) list"

text \<open>Lines 83 and 84.\<close>

definition year_filter :: "int list option \<Rightarrow> kev_record list \<Rightarrow> kev_record list" where
  "year_filter selected_years rows =
     (if truthy selected_years
      then filter (\<lambda>r. year (dateAdded r) \<in> set (values_of selected_years)) rows
      else rows)"

text \<open>Lines 85 and 86.\<close>

definition vendor_filter :: "string list option \<Rightarrow> kev_record list \<Rightarrow> kev_record list" where
  "vendor_filter selected_vendors rows =
     (if truthy selected_vendors
      then filter (\<lambda>r. isin_text (vendorProject r) (values_of selected_vendors)) rows
      else rows)"

text \<open>The function applied on line 88:
  \<^verbatim>\<open>lambda x: any(cwe in str(x) for cwe in selected_cwes)\<close>.\<close>

definition cwe_match :: "string list \<Rightarrow> string option \<Rightarrow> bool" where
  "cwe_match selected x = list_ex (\<lambda>cwe. py_in cwe (py_str x)) selected"

text \<open>Lines 87 and 88.\<close>

definition cwe_filter :: "string list option \<Rightarrow> kev_record list \<Rightarrow> frame" where
  "cwe_filter selected_cwes rows =
     (if truthy selected_cwes
      then (if rows = [] then NoColumns
            else Frame (filter (\<lambda>r. cwe_match (values_of selected_cwes) (cwes r)) rows))
      else Frame rows)"

text \<open>
  Lines 90 to 93. \<^verbatim>\<open>filtered_df['knownRansomwareCampaignUse']\<close> raises \<^verbatim>\<open>KeyError\<close> on a
  frame without that column. Any mode other than \<^verbatim>\<open>'Known'\<close> and \<^verbatim>\<open>'Unknown'\<close> leaves the
  frame as it is.
\<close>

definition ransomware_column :: "frame \<Rightarrow> py_error + kev_record list" where
  "ransomware_column fr =
     (case fr of
        NoColumns \<Rightarrow> Inl (KeyError ''knownRansomwareCampaignUse'')
      | Frame rows \<Rightarrow> Inr rows)"

definition ransomware_step :: "string \<Rightarrow> frame \<Rightarrow> py_error + frame" where
  "ransomware_step ransomware_filter fr =
     (if ransomware_filter = ''Known'' then
        (case ransomware_column fr of
           Inl e \<Rightarrow> Inl e
         | Inr rows \<Rightarrow> Inr (Frame (filter (\<lambda>r. knownRansomwareCampaignUse r = ''known'') rows)))
      else if ransomware_filter = ''Unknown'' then
        (case ransomware_column fr of
           Inl e \<Rightarrow> Inl e
         | Inr rows \<Rightarrow> Inr (Frame (filter (\<lambda>r. knownRansomwareCampaignUse r \<noteq> ''known'') rows)))
      else Inr fr)"

text \<open>Lines 81 to 93: the frame \<^verbatim>\<open>filtered_df\<close> that reaches line 95.\<close>

definition filtered_frame ::
  "kev_record list \<Rightarrow> int list option \<Rightarrow> string list option \<Rightarrow> string list option \<Rightarrow> string
     \<Rightarrow> py_error + frame" where
  "filtered_frame df selected_years selected_vendors selected_cwes ransomware_filter =
     ransomware_step ransomware_filter
       (cwe_filter selected_cwes (vendor_filter selected_vendors (year_filter selected_years df)))"

text \<open>Lines 98 and 99: the frame \<^verbatim>\<open>monthly_counts\<close>, one row per month.\<close>

definition monthly_counts :: "kev_record list \<Rightarrow> (timestamp \<times> nat) list" where
  "monthly_counts rows =
     map (\<lambda>(p, n). (to_timestamp p, n)) (groupby_size (map (\<lambda>r. to_period_M (dateAdded r)) rows))"

definition update_graph ::
  "kev_record list \<Rightarrow> int list option \<Rightarrow> string list option \<Rightarrow> string list option \<Rightarrow> string
     \<Rightarrow> py_error + figure" where
  "update_graph df selected_years selected_vendors selected_cwes ransomware_filter =
     (case filtered_frame df selected_years selected_vendors selected_cwes ransomware_filter of
        Inl e \<Rightarrow> Inl e
      | Inr filtered_df \<Rightarrow>
          if frame_empty filtered_df
          then Inr \<lparr>title = ''No data matches the selected filters.'', points = []\<rparr>
          else Inr \<lparr>title = ''Monthly Count of Exploited CVEs'',
                    points = monthly_counts (frame_rows filtered_df)\<rparr>)"

section \<open>The callback on a store of objects\<close>

text \<open>
  Python variables hold references to objects, and the module-level variable \<^verbatim>\<open>df\<close> is
  shared by every call of the callback. To say what a call writes, the same statements are
  modelled once more on a store: a map from references to the tables they hold, and the
  next unused reference.
  A table is a frame of vulnerability rows, or the frame \<^verbatim>\<open>monthly_counts\<close>, whose first
  column holds months after line 98 and Timestamps after line 99.
\<close>

datatype obj = Rows frame | Counts "(period \<times> nat) list" | Points "(timestamp \<times> nat) list"

record store =
  objects :: "nat \<Rightarrow> obj option"
  next_ref :: nat

text \<open>An expression that builds a table (\<^verbatim>\<open>df.copy()\<close>, \<^verbatim>\<open>filtered_df[mask]\<close>,
  \<^verbatim>\<open>reset_index()\<close>) puts it at the next unused reference.\<close>

definition new_object :: "obj \<Rightarrow> store \<Rightarrow> nat \<times> store" where
  "new_object v s =
     (next_ref s, \<lparr>objects = (objects s)(next_ref s \<mapsto> v), next_ref = Suc (next_ref s)\<rparr>)"

text \<open>An assignment to a column (\<^verbatim>\<open>monthly_counts['dateAdded'] = ...\<close>) changes the table
  at a reference in place.\<close>

definition set_object :: "nat \<Rightarrow> obj \<Rightarrow> store \<Rightarrow> store" where
  "set_object r v s = s\<lparr>objects := (objects s)(r \<mapsto> v)\<rparr>"

text \<open>
  \<^verbatim>\<open>update_graph\<close> statement by statement, \<open>df_ref\<close> being the reference that \<^verbatim>\<open>df\<close>
  holds. Line 81 copies the table, every filter that applies builds a new table, line 98
  builds \<^verbatim>\<open>monthly_counts\<close> and line 99 changes that table in place. The result is \<open>None\<close>
  when \<open>df_ref\<close> does not refer to a frame with columns: lines 7 to 12 bind \<^verbatim>\<open>df\<close> to such a
  frame before the callback can run.
\<close>

definition update_graph_store ::
  "nat \<Rightarrow> int list option \<Rightarrow> string list option \<Rightarrow> string list option \<Rightarrow> string \<Rightarrow> store
     \<Rightarrow> ((py_error + figure) \<times> store) option" where
  "update_graph_store df_ref selected_years selected_vendors selected_cwes ransomware_filter s =
     (case objects s df_ref of
        Some (Rows (Frame df)) \<Rightarrow>
          (let s1 = snd (new_object (Rows (Frame df)) s);
               rows1 = year_filter selected_years df;
               s2 = (if truthy selected_years
                     then snd (new_object (Rows (Frame rows1)) s1) else s1);
               rows2 = vendor_filter selected_vendors rows1;
               s3 = (if truthy selected_vendors
                     then snd (new_object (Rows (Frame rows2)) s2) else s2);
               frame3 = cwe_filter selected_cwes rows2;
               s4 = (if truthy selected_cwes then snd (new_object (Rows frame3) s3) else s3)
           in case ransomware_step ransomware_filter frame3 of
                Inl e \<Rightarrow> Some (Inl e, s4)
              | Inr filtered_df \<Rightarrow>
                  (let s5 = (if ransomware_filter = ''Known'' \<or> ransomware_filter = ''Unknown''
                             then snd (new_object (Rows filtered_df) s4) else s4)
                   in if frame_empty filtered_df
                      then Some (Inr \<lparr>title = ''No data matches the selected filters.'',
                                      points = []\<rparr>, s5)
                      else
                        (let counts = groupby_size (map (\<lambda>r. to_period_M (dateAdded r))
                                                        (frame_rows filtered_df));
                             a = new_object (Counts counts) s5;
                             monthly_counts_ref = fst a;
                             s6 = snd a;
                             pts = map (\<lambda>(p, n). (to_timestamp p, n)) counts;
                             s7 = set_object monthly_counts_ref (Points pts) s6
                         in Some (Inr \<lparr>title = ''Monthly Count of Exploited CVEs'',
                                        points = pts\<rparr>, s7))))
      | _ \<Rightarrow> None)"

text \<open>The page calls the callback once for every change of a control: a sequence of calls,
  each with its own selection, on the store that the call before left.\<close>

type_synonym query = "int list option \<times> string list option \<times> string list option \<times> string"

fun run_queries :: "nat \<Rightarrow> query list \<Rightarrow> store \<Rightarrow> ((py_error + figure) list \<times> store) option" where
  "run_queries df_ref [] s = Some ([], s)"
| "run_queries df_ref ((ys, vs, cs, rf) # qs) s =
     (case update_graph_store df_ref ys vs cs rf s of
        None \<Rightarrow> None
      | Some (fig, s') \<Rightarrow>
          (case run_queries df_ref qs s' of
             None \<Rightarrow> None
           | Some (figs, s'') \<Rightarrow> Some (fig # figs, s'')))"

text \<open>Every table that \<open>s\<close> holds is the same in \<open>s'\<close>, which may hold more.\<close>

definition extends :: "store \<Rightarrow> store \<Rightarrow> bool" where
  "extends s s' = (next_ref s \<le> next_ref s' \<and> (\<forall>r < next_ref s. objects s' r = objects s r))"

section \<open>The vocabulary of the specification\<close>

text \<open>
  A record satisfies a selection when it passes every restriction that is active: the
  year is one of the selected years, the vendor is one of the selected vendors, some
  selected fragment is a contiguous part (\<open>sublist\<close>) of the text of the weakness cell,
  and the ransomware mode holds. A restriction with nothing selected is not active.
\<close>

definition satisfies_filters ::
  "int list option \<Rightarrow> string list option \<Rightarrow> string list option \<Rightarrow> string \<Rightarrow> kev_record \<Rightarrow> bool" where
  "satisfies_filters years vendors fragments mode r =
     ((truthy years \<longrightarrow> year (dateAdded r) \<in> set (values_of years)) \<and>
      (truthy vendors \<longrightarrow> (\<exists>v \<in> set (values_of vendors). vendorProject r = Some v)) \<and>
      (truthy fragments \<longrightarrow> (\<exists>c \<in> set (values_of fragments). sublist c (py_str (cwes r)))) \<and>
      (mode = ''Known'' \<longrightarrow> knownRansomwareCampaignUse r = ''known'') \<and>
      (mode = ''Unknown'' \<longrightarrow> knownRansomwareCampaignUse r \<noteq> ''known''))"

text \<open>The order of months, and two Timestamps in the same month.\<close>

definition month_before :: "timestamp \<Rightarrow> timestamp \<Rightarrow> bool" where
  "month_before a b = (year a < year b \<or> (year a = year b \<and> month a < month b))"

definition same_month :: "timestamp \<Rightarrow> timestamp \<Rightarrow> bool" where
  "same_month a b = (year a = year b \<and> month a = month b)"

text \<open>The count that a figure shows for the month of \<open>t\<close>: 0 when the month has no point.\<close>

definition count_at :: "figure \<Rightarrow> timestamp \<Rightarrow> nat" where
  "count_at fig t = sum_list (map snd (filter (\<lambda>e. same_month (fst e) t) (points fig)))"

text \<open>The date cell of a CSV row can be parsed.\<close>

definition date_parses :: "(string \<Rightarrow> timestamp option) \<Rightarrow> csv_row \<Rightarrow> bool" where
  "date_parses parse r = (case csv_dateAdded r of None \<Rightarrow> False | Some s \<Rightarrow> parse s \<noteq> None)"

section \<open>Example data\<close>

text \<open>The three records of the specification's scenario.\<close>

definition scenario :: "kev_record list" where
  "scenario =
     [\<lparr>dateAdded = \<lparr>year = 2023, month = 1, day = 15\<rparr>, vendorProject = Some ''Acme'',
       cwes = Some ''CWE-79'', knownRansomwareCampaignUse = ''known''\<rparr>,
      \<lparr>dateAdded = \<lparr>year = 2023, month = 1, day = 20\<rparr>, vendorProject = Some ''Acme'',
       cwes = Some ''CWE-89'', knownRansomwareCampaignUse = ''''\<rparr>,
      \<lparr>dateAdded = \<lparr>year = 2023, month = 2, day = 1\<rparr>, vendorProject = Some ''Globex'',
       cwes = Some ''CWE-79'', knownRansomwareCampaignUse = ''known''\<rparr>]"

text \<open>Two records of two years and two vendors: every year, vendor and weakness below is an
  option that the dropdowns built from this dataset offer.\<close>

definition two_years :: "kev_record list" where
  "two_years =
     [\<lparr>dateAdded = \<lparr>year = 2022, month = 3, day = 10\<rparr>, vendorProject = Some ''Acme'',
       cwes = Some ''CWE-79'', knownRansomwareCampaignUse = ''known''\<rparr>,
      \<lparr>dateAdded = \<lparr>year = 2023, month = 1, day = 15\<rparr>, vendorProject = Some ''Globex'',
       cwes = Some ''CWE-89'', knownRansomwareCampaignUse = ''known''\<rparr>]"

text \<open>A record with no vendor and no weakness cell.\<close>

definition bare_record :: kev_record where
  "bare_record =
     \<lparr>dateAdded = \<lparr>year = 2023, month = 2, day = 1\<rparr>, vendorProject = None,
      cwes = None, knownRansomwareCampaignUse = ''nan''\<rparr>"

text \<open>A date parser that knows two dates, and four CSV rows: two with a date it parses, one
  with other text and one with no date.\<close>

definition example_parse :: "string \<Rightarrow> timestamp option" where
  "example_parse s =
     (if s = ''2023-01-15'' then Some \<lparr>year = 2023, month = 1, day = 15\<rparr>
      else if s = ''2023-02-01'' then Some \<lparr>year = 2023, month = 2, day = 1\<rparr>
      else None)"

definition example_csv :: "csv_row list" where
  "example_csv =
     [\<lparr>csv_dateAdded = Some ''2023-01-15'', csv_vendorProject = Some ''Acme'',
       csv_cwes = Some ''CWE-79'', csv_knownRansomwareCampaignUse = Some '' Known ''\<rparr>,
      \<lparr>csv_dateAdded = Some ''not a date'', csv_vendorProject = Some ''Acme'',
       csv_cwes = Some ''CWE-89'', csv_knownRansomwareCampaignUse = Some ''Unknown''\<rparr>,
      \<lparr>csv_dateAdded = None, csv_vendorProject = Some ''Initech'',
       csv_cwes = None, csv_knownRansomwareCampaignUse = Some ''Known''\<rparr>,
      \<lparr>csv_dateAdded = Some ''2023-02-01'', csv_vendorProject = None,
       csv_cwes = None, csv_knownRansomwareCampaignUse = None\<rparr>]"

text \<open>A store in which \<^verbatim>\<open>df\<close> is the only object, at reference 0.\<close>

definition example_store :: store where
  "example_store = \<lparr>objects = (\<lambda>r. if r = 0 then Some (Rows (Frame scenario)) else None),
                     next_ref = 1\<rparr>"

section \<open>Facts about the operations\<close>

lemma py_in_iff: "py_in a b \<longleftrightarrow> (\<exists>ps ss. b = ps @ a @ ss)"
proof (induction b)
  case Nil
  then show ?case by auto
next
  case (Cons c cs)
  then show ?case
    using sublist_Cons_right[of a c cs] by (simp add: sublist_def)
qed

lemma py_in_sublist: "py_in a b = sublist a b"
  by (simp add: py_in_iff sublist_def)

lemma cwe_match_iff: "cwe_match sel x \<longleftrightarrow> (\<exists>c \<in> set sel. sublist c (py_str x))"
  by (simp add: cwe_match_def list_ex_iff py_in_sublist)

lemma isin_text_iff: "isin_text x vs \<longleftrightarrow> (\<exists>v \<in> set vs. x = Some v)"
  by (auto simp: isin_text_def split: option.splits)

lemma sublist_nan:
  "sublist c ''nan'' \<longleftrightarrow> c \<in> {'''', ''n'', ''a'', ''na'', ''an'', ''nan''}"
proof
  assume "sublist c ''nan''"
  then obtain ps ss where eq: "''nan'' = ps @ c @ ss" by (auto simp: sublist_def)
  then show "c \<in> {'''', ''n'', ''a'', ''na'', ''an'', ''nan''}"
    by (auto simp: append_eq_Cons_conv Cons_eq_append_conv)
next
  assume "c \<in> {'''', ''n'', ''a'', ''na'', ''an'', ''nan''}"
  then show "sublist c ''nan''"
    by (auto simp: sublist_code)
qed

lemma to_period_to_timestamp: "to_period_M (to_timestamp p) = p"
  by (simp add: to_period_M_def to_timestamp_def)

lemma same_month_period: "same_month a b \<longleftrightarrow> to_period_M a = to_period_M b"
  by (auto simp: same_month_def to_period_M_def)

lemma month_before_period: "month_before a b \<longleftrightarrow> to_period_M a < to_period_M b"
  by (auto simp: month_before_def to_period_M_def less_prod_def)

lemma month_before_irrefl: "\<not> month_before a a"
  by (simp add: month_before_def)

subsection \<open>Grouping\<close>

lemma groupby_size_keys: "map fst (groupby_size ks) = sort (remdups ks)"
  by (simp add: groupby_size_def comp_def)

lemma groupby_size_sum: "sum_list (map snd (groupby_size ks)) = length ks"
proof -
  have "sum_list (map snd (groupby_size ks)) = sum_list (map (count_list ks) (sort (remdups ks)))"
    by (simp add: groupby_size_def comp_def)
  also have "\<dots> = sum (count_list ks) (set (sort (remdups ks)))"
    by (rule sum_list_distinct_conv_sum_set) simp
  also have "\<dots> = length ks"
    by (simp add: sum_count_set)
  finally show ?thesis .
qed

lemma count_list_map_filter: "count_list (map f xs) k = length (filter (\<lambda>x. f x = k) xs)"
  by (induction xs) auto

lemma sum_filter_key_distinct:
  "distinct xs \<Longrightarrow> sum_list (map f (filter (\<lambda>x. x = k) xs)) = (if k \<in> set xs then f k else 0)"
  by (induction xs) auto

lemma groupby_size_sum_key:
  "sum_list (map snd (filter (\<lambda>e. fst e = k) (groupby_size ks))) = count_list ks k"
proof -
  have "filter (\<lambda>e. fst e = k) (groupby_size ks) =
        map (\<lambda>k. (k, count_list ks k)) (filter (\<lambda>x. x = k) (sort (remdups ks)))"
    by (simp add: groupby_size_def filter_map comp_def)
  then have "sum_list (map snd (filter (\<lambda>e. fst e = k) (groupby_size ks))) =
        sum_list (map (count_list ks) (filter (\<lambda>x. x = k) (sort (remdups ks))))"
    by (simp add: comp_def)
  also have "\<dots> = (if k \<in> set (sort (remdups ks)) then count_list ks k else 0)"
    by (rule sum_filter_key_distinct) simp
  also have "\<dots> = count_list ks k"
    by simp
  finally show ?thesis .
qed

lemma sorted_wrt_irrefl_distinct: "sorted_wrt R xs \<Longrightarrow> (\<And>x. \<not> R x x) \<Longrightarrow> distinct xs"
  by (induction xs) auto

lemma length_filter_split:
  "length (filter (\<lambda>x. P x \<and> Q x) xs) + length (filter (\<lambda>x. P x \<and> \<not> Q x) xs) = length (filter P xs)"
  by (induction xs) auto

subsection \<open>The monthly counts\<close>

lemma monthly_counts_Nil: "monthly_counts [] = []"
  by (simp add: monthly_counts_def groupby_size_def)

lemma monthly_counts_sum: "sum_list (map snd (monthly_counts rows)) = length rows"
  using groupby_size_sum[of "map (\<lambda>r. to_period_M (dateAdded r)) rows"]
  by (simp add: monthly_counts_def comp_def case_prod_unfold)

lemma monthly_counts_periods:
  "map (\<lambda>e. to_period_M (fst e)) (monthly_counts rows) =
     sort (remdups (map (\<lambda>r. to_period_M (dateAdded r)) rows))"
  using groupby_size_keys[of "map (\<lambda>r. to_period_M (dateAdded r)) rows"]
  by (simp add: monthly_counts_def comp_def case_prod_unfold to_period_to_timestamp)

lemma monthly_counts_strict: "sorted_wrt month_before (map fst (monthly_counts rows))"
proof -
  have "sorted_wrt (<) (map (\<lambda>e. to_period_M (fst e)) (monthly_counts rows))"
    by (simp add: monthly_counts_periods strict_sorted_iff)
  then show ?thesis
    by (simp add: sorted_wrt_map month_before_period)
qed

lemma monthly_counts_distinct: "distinct (map fst (monthly_counts rows))"
  using monthly_counts_strict month_before_irrefl by (rule sorted_wrt_irrefl_distinct)

lemma monthly_counts_mem:
  "(t, n) \<in> set (monthly_counts rows) \<longleftrightarrow>
     (\<exists>r \<in> set rows. t = to_timestamp (to_period_M (dateAdded r))) \<and>
     n = length (filter (\<lambda>r. same_month (dateAdded r) t) rows)"
proof -
  let ?ks = "map (\<lambda>r. to_period_M (dateAdded r)) rows"
  have "(t, n) \<in> set (monthly_counts rows) \<longleftrightarrow>
        (\<exists>p \<in> set ?ks. t = to_timestamp p \<and> n = count_list ?ks p)"
    by (auto simp: monthly_counts_def groupby_size_def)
  also have "\<dots> \<longleftrightarrow>
        (\<exists>r \<in> set rows. t = to_timestamp (to_period_M (dateAdded r)) \<and>
            n = count_list ?ks (to_period_M t))"
    by (auto simp: to_period_to_timestamp)
  also have "\<dots> \<longleftrightarrow> (\<exists>r \<in> set rows. t = to_timestamp (to_period_M (dateAdded r))) \<and>
     n = length (filter (\<lambda>r. same_month (dateAdded r) t) rows)"
    by (auto simp: count_list_map_filter same_month_period)
  finally show ?thesis .
qed

lemma monthly_counts_sum_month:
  "sum_list (map snd (filter (\<lambda>e. same_month (fst e) t) (monthly_counts rows))) =
     length (filter (\<lambda>r. same_month (dateAdded r) t) rows)"
proof -
  let ?ks = "map (\<lambda>r. to_period_M (dateAdded r)) rows"
  have "filter (\<lambda>e. same_month (fst e) t) (monthly_counts rows) =
        map (\<lambda>(p, n). (to_timestamp p, n)) (filter (\<lambda>e. fst e = to_period_M t) (groupby_size ?ks))"
    by (simp add: monthly_counts_def filter_map comp_def case_prod_unfold same_month_period
        to_period_to_timestamp)
  then have "sum_list (map snd (filter (\<lambda>e. same_month (fst e) t) (monthly_counts rows))) =
        sum_list (map snd (filter (\<lambda>e. fst e = to_period_M t) (groupby_size ?ks)))"
    by (simp add: comp_def case_prod_unfold)
  also have "\<dots> = count_list ?ks (to_period_M t)"
    by (rule groupby_size_sum_key)
  also have "\<dots> = length (filter (\<lambda>r. same_month (dateAdded r) t) rows)"
    by (simp add: count_list_map_filter same_month_period)
  finally show ?thesis .
qed

subsection \<open>The filters\<close>

lemma cwe_filter_rows:
  "frame_rows (cwe_filter cs rows) =
     filter (\<lambda>r. truthy cs \<longrightarrow> (\<exists>c \<in> set (values_of cs). sublist c (py_str (cwes r)))) rows"
  by (simp add: cwe_filter_def cwe_match_iff)

lemma cwe_filter_NoColumns: "cwe_filter cs rows = NoColumns \<longleftrightarrow> truthy cs \<and> rows = []"
  by (simp add: cwe_filter_def)

lemma ransomware_step_rows:
  "ransomware_step rf fr = Inr fr' \<Longrightarrow>
   frame_rows fr' = filter (\<lambda>r. (rf = ''Known'' \<longrightarrow> knownRansomwareCampaignUse r = ''known'') \<and>
                                 (rf = ''Unknown'' \<longrightarrow> knownRansomwareCampaignUse r \<noteq> ''known''))
                           (frame_rows fr)"
  by (cases fr) (auto simp: ransomware_step_def ransomware_column_def split: if_splits)

lemma ransomware_step_error:
  "ransomware_step rf fr = Inl e \<longleftrightarrow>
     fr = NoColumns \<and> (rf = ''Known'' \<or> rf = ''Unknown'') \<and> e = KeyError ''knownRansomwareCampaignUse''"
  by (cases fr) (auto simp: ransomware_step_def ransomware_column_def)

lemma year_vendor_rows:
  "vendor_filter vs (year_filter ys df) =
     filter (\<lambda>r. (truthy ys \<longrightarrow> year (dateAdded r) \<in> set (values_of ys)) \<and>
                 (truthy vs \<longrightarrow> (\<exists>v \<in> set (values_of vs). vendorProject r = Some v))) df"
  by (simp add: vendor_filter_def year_filter_def isin_text_iff conj_commute)

lemma filtered_frame_rows:
  assumes "filtered_frame df ys vs cs rf = Inr fr"
  shows "frame_rows fr = filter (satisfies_filters ys vs cs rf) df"
proof -
  have "frame_rows fr =
        filter (\<lambda>r. (rf = ''Known'' \<longrightarrow> knownRansomwareCampaignUse r = ''known'') \<and>
                    (rf = ''Unknown'' \<longrightarrow> knownRansomwareCampaignUse r \<noteq> ''known''))
          (frame_rows (cwe_filter cs (vendor_filter vs (year_filter ys df))))"
    using assms unfolding filtered_frame_def by (rule ransomware_step_rows)
  also have "\<dots> = filter (satisfies_filters ys vs cs rf) df"
    unfolding cwe_filter_rows year_vendor_rows filter_filter
    by (rule filter_cong) (auto simp: satisfies_filters_def)
  finally show ?thesis .
qed

lemma filtered_frame_error:
  "filtered_frame df ys vs cs rf = Inl e \<longleftrightarrow>
     truthy cs \<and> vendor_filter vs (year_filter ys df) = [] \<and> (rf = ''Known'' \<or> rf = ''Unknown'')
     \<and> e = KeyError ''knownRansomwareCampaignUse''"
  by (simp add: filtered_frame_def ransomware_step_error cwe_filter_NoColumns)

lemma filtered_frame_error_no_match:
  assumes "filtered_frame df ys vs cs rf = Inl e"
  shows "filter (satisfies_filters ys vs cs rf) df = []"
proof -
  from assms have "vendor_filter vs (year_filter ys df) = []"
    by (simp add: filtered_frame_error)
  then have "\<forall>r \<in> set df. \<not> ((truthy ys \<longrightarrow> year (dateAdded r) \<in> set (values_of ys)) \<and>
                 (truthy vs \<longrightarrow> (\<exists>v \<in> set (values_of vs). vendorProject r = Some v)))"
    unfolding year_vendor_rows by (simp add: filter_empty_conv)
  then show ?thesis
    by (auto simp: filter_empty_conv satisfies_filters_def)
qed

lemma satisfies_Known:
  "satisfies_filters ys vs cs ''Known'' =
     (\<lambda>r. satisfies_filters ys vs cs ''All'' r \<and> knownRansomwareCampaignUse r = ''known'')"
  by (rule ext) (simp add: satisfies_filters_def)

lemma satisfies_Unknown:
  "satisfies_filters ys vs cs ''Unknown'' =
     (\<lambda>r. satisfies_filters ys vs cs ''All'' r \<and> knownRansomwareCampaignUse r \<noteq> ''known'')"
  by (rule ext) (simp add: satisfies_filters_def)

subsection \<open>The callback\<close>

lemma frame_empty_rows: "frame_empty fr \<longleftrightarrow> frame_rows fr = []"
  by (cases fr) simp_all

lemma update_graph_error:
  "update_graph df ys vs cs rf = Inl e \<longleftrightarrow> filtered_frame df ys vs cs rf = Inl e"
  by (auto simp: update_graph_def split: sum.splits)

lemma update_graph_returns_iff:
  "(\<exists>fig. update_graph df ys vs cs rf = Inr fig) \<longleftrightarrow> (\<exists>fr. filtered_frame df ys vs cs rf = Inr fr)"
  by (auto simp: update_graph_def split: sum.splits)

text \<open>The callback raises in one situation only: weaknesses are selected, the year and
  vendor filters have left no row, and the mode is \<^verbatim>\<open>'Known'\<close> or \<^verbatim>\<open>'Unknown'\<close>.\<close>

lemma update_graph_raises_iff:
  "update_graph df ys vs cs rf = Inl e \<longleftrightarrow>
     truthy cs \<and> vendor_filter vs (year_filter ys df) = [] \<and> (rf = ''Known'' \<or> rf = ''Unknown'')
     \<and> e = KeyError ''knownRansomwareCampaignUse''"
  by (simp add: update_graph_error filtered_frame_error)

lemma update_graph_points:
  assumes "update_graph df ys vs cs rf = Inr fig"
  shows "points fig = monthly_counts (filter (satisfies_filters ys vs cs rf) df)"
proof -
  from assms obtain fr where fr: "filtered_frame df ys vs cs rf = Inr fr"
    by (auto simp: update_graph_def split: sum.splits)
  have rows: "frame_rows fr = filter (satisfies_filters ys vs cs rf) df"
    using fr by (rule filtered_frame_rows)
  show ?thesis
  proof (cases "frame_empty fr")
    case True
    with assms fr have "points fig = []" by (auto simp: update_graph_def)
    moreover from True rows have "filter (satisfies_filters ys vs cs rf) df = []"
      by (simp add: frame_empty_rows)
    ultimately show ?thesis by (simp add: monthly_counts_Nil)
  next
    case False
    with assms fr have "points fig = monthly_counts (frame_rows fr)"
      by (auto simp: update_graph_def)
    with rows show ?thesis by simp
  qed
qed

lemma count_at_update_graph:
  assumes "update_graph df ys vs cs rf = Inr fig"
  shows "count_at fig t =
           length (filter (\<lambda>r. same_month (dateAdded r) t) (filter (satisfies_filters ys vs cs rf) df))"
  using update_graph_points[OF assms] by (simp add: count_at_def monthly_counts_sum_month)

subsection \<open>Loading\<close>

lemma date_parses_iff: "date_parses parse r \<longleftrightarrow> to_datetime_coerce parse (csv_dateAdded r) \<noteq> None"
  by (simp add: date_parses_def to_datetime_coerce_def split: option.splits)

lemma load_row_None: "load_row parse r = None \<longleftrightarrow> \<not> date_parses parse r"
  by (simp add: load_row_def date_parses_iff split: option.splits)

lemma date_parses_load: "date_parses parse r \<longleftrightarrow> (\<exists>k. load_row parse r = Some k)"
  using load_row_None[of parse r] by auto

lemma load_data_map:
  "map Some (load_data parse rows) = map (load_row parse) (filter (date_parses parse) rows)"
  by (induction rows)
    (auto simp: load_data_def List.map_filter_simps date_parses_load split: option.splits)

lemma load_data_mem:
  "k \<in> set (load_data parse rows) \<longleftrightarrow> (\<exists>r \<in> set rows. load_row parse r = Some k)"
  by (induction rows) (auto simp: load_data_def List.map_filter_simps split: option.splits)

lemma load_row_Some:
  "load_row parse r = Some k \<Longrightarrow>
     (\<exists>s. csv_dateAdded r = Some s \<and> parse s = Some (dateAdded k)) \<and>
     vendorProject k = csv_vendorProject r \<and> cwes k = csv_cwes r \<and>
     knownRansomwareCampaignUse k = normalize_ransomware (csv_knownRansomwareCampaignUse r)"
  by (auto simp: load_row_def to_datetime_coerce_def split: option.splits)

subsection \<open>The store\<close>

lemma extends_refl: "extends s s"
  by (simp add: extends_def)

lemma extends_trans: "extends a b \<Longrightarrow> extends b c \<Longrightarrow> extends a c"
  by (auto simp: extends_def)

lemma extends_new_object: "extends s (snd (new_object v s))"
  by (simp add: extends_def new_object_def)

lemma extends_if_new: "extends s (if b then snd (new_object v s) else s)"
  by (simp add: extends_refl extends_new_object)

lemma extends_new_set: "extends s (set_object (fst (new_object v s)) w (snd (new_object v s)))"
  by (auto simp: extends_def new_object_def set_object_def)

lemma update_graph_store_call:
  assumes df: "objects s df_ref = Some (Rows (Frame df))"
  shows "\<exists>s'. update_graph_store df_ref ys vs cs rf s = Some (update_graph df ys vs cs rf, s')
              \<and> extends s s'"
proof -
  define s1 where "s1 = snd (new_object (Rows (Frame df)) s)"
  define rows1 where "rows1 = year_filter ys df"
  define s2 where "s2 = (if truthy ys then snd (new_object (Rows (Frame rows1)) s1) else s1)"
  define rows2 where "rows2 = vendor_filter vs rows1"
  define s3 where "s3 = (if truthy vs then snd (new_object (Rows (Frame rows2)) s2) else s2)"
  define frame3 where "frame3 = cwe_filter cs rows2"
  define s4 where "s4 = (if truthy cs then snd (new_object (Rows frame3) s3) else s3)"
  note defs = s4_def s3_def s2_def s1_def rows1_def rows2_def frame3_def
  have e1: "extends s s1" unfolding s1_def by (rule extends_new_object)
  have e2: "extends s1 s2" unfolding s2_def by (rule extends_if_new)
  have e3: "extends s2 s3" unfolding s3_def by (rule extends_if_new)
  have e4': "extends s3 s4" unfolding s4_def by (rule extends_if_new)
  have e4: "extends s s4"
    by (rule extends_trans[OF extends_trans[OF extends_trans[OF e1 e2] e3] e4'])
  show ?thesis
  proof (cases "ransomware_step rf frame3")
    case (Inl e)
    then have "update_graph_store df_ref ys vs cs rf s = Some (update_graph df ys vs cs rf, s4)"
      by (simp add: update_graph_store_def df Let_def update_graph_def filtered_frame_def defs)
    with e4 show ?thesis by blast
  next
    case (Inr fd)
    define s5 where
      "s5 = (if rf = ''Known'' \<or> rf = ''Unknown'' then snd (new_object (Rows fd) s4) else s4)"
    have e5: "extends s s5"
      unfolding s5_def by (rule extends_trans[OF e4 extends_if_new])
    show ?thesis
    proof (cases "frame_empty fd")
      case True
      with Inr have "update_graph_store df_ref ys vs cs rf s = Some (update_graph df ys vs cs rf, s5)"
        by (simp add: update_graph_store_def df Let_def update_graph_def filtered_frame_def
            s5_def defs)
      with e5 show ?thesis by blast
    next
      case False
      define counts where
        "counts = groupby_size (map (\<lambda>r. to_period_M (dateAdded r)) (frame_rows fd))"
      define s7 where
        "s7 = set_object (fst (new_object (Counts counts) s5))
                (Points (map (\<lambda>(p, n). (to_timestamp p, n)) counts))
                (snd (new_object (Counts counts) s5))"
      from False Inr
      have "update_graph_store df_ref ys vs cs rf s = Some (update_graph df ys vs cs rf, s7)"
        by (simp add: update_graph_store_def df Let_def update_graph_def filtered_frame_def
            monthly_counts_def s7_def counts_def s5_def defs)
      moreover have "extends s s7"
        unfolding s7_def by (rule extends_trans[OF e5 extends_new_set])
      ultimately show ?thesis by blast
    qed
  qed
qed

lemma run_queries_extends:
  assumes "objects s df_ref = Some (Rows (Frame df))" and "df_ref < next_ref s"
  shows "\<exists>s'. run_queries df_ref qs s =
                Some (map (\<lambda>(ys, vs, cs, rf). update_graph df ys vs cs rf) qs, s')
              \<and> extends s s'"
  using assms
proof (induction qs arbitrary: s)
  case Nil
  then show ?case by (simp add: extends_refl)
next
  case (Cons q qs)
  obtain ys vs cs rf where q: "q = (ys, vs, cs, rf)" by (cases q) auto
  from update_graph_store_call[OF Cons.prems(1), of ys vs cs rf]
  obtain s1 where s1: "update_graph_store df_ref ys vs cs rf s = Some (update_graph df ys vs cs rf, s1)"
    and e1: "extends s s1" by blast
  from e1 Cons.prems have o1: "objects s1 df_ref = Some (Rows (Frame df))"
    and n1: "df_ref < next_ref s1"
    by (auto simp: extends_def)
  from Cons.IH[OF o1 n1]
  obtain s2 where s2: "run_queries df_ref qs s1 =
                Some (map (\<lambda>(ys, vs, cs, rf). update_graph df ys vs cs rf) qs, s2)"
    and e2: "extends s1 s2" by blast
  have "run_queries df_ref (q # qs) s =
          Some (map (\<lambda>(ys, vs, cs, rf). update_graph df ys vs cs rf) (q # qs), s2)"
    by (simp add: q s1 s2)
  with extends_trans[OF e1 e2] show ?case by blast
qed

section \<open>The claims\<close>

text \<open>
  Claim C1. Whenever the callback returns a figure, the counts of its series add up to the
  number of records of the dataset that satisfy every active restriction at once: the
  year when years are selected, the vendor when vendors are selected, the substring match
  when weaknesses are selected, and the ransomware mode. Where the callback raises
  instead of returning, no record satisfies the selection.
\<close>

theorem counts_sum_to_matching_records:
  "(\<forall>fig. update_graph df ys vs cs rf = Inr fig \<longrightarrow>
      sum_list (map snd (points fig)) = length (filter (satisfies_filters ys vs cs rf) df)) \<and>
   (\<forall>e. update_graph df ys vs cs rf = Inl e \<longrightarrow>
      length (filter (satisfies_filters ys vs cs rf) df) = 0)"
proof (intro conjI allI impI)
  fix fig assume "update_graph df ys vs cs rf = Inr fig"
  then have "points fig = monthly_counts (filter (satisfies_filters ys vs cs rf) df)"
    by (rule update_graph_points)
  then show "sum_list (map snd (points fig)) = length (filter (satisfies_filters ys vs cs rf) df)"
    by (simp add: monthly_counts_sum)
next
  fix e assume "update_graph df ys vs cs rf = Inl e"
  then have "filtered_frame df ys vs cs rf = Inl e" by (simp add: update_graph_error)
  then show "length (filter (satisfies_filters ys vs cs rf) df) = 0"
    by (simp add: filtered_frame_error_no_match)
qed

theorem counts_sum_to_matching_records_witness:
  "update_graph scenario (Some [2023]) (Some [''Acme'']) (Some [''CWE-7'', ''CWE-8'']) ''Known''
     = Inr \<lparr>title = ''Monthly Count of Exploited CVEs'',
            points = [(\<lparr>year = 2023, month = 1, day = 1\<rparr>, 1)]\<rparr> \<and>
   length (filter (satisfies_filters (Some [2023]) (Some [''Acme'']) (Some [''CWE-7'', ''CWE-8''])
                     ''Known'') scenario) = 1"
proof -
  have h: "update_graph scenario (Some [2023]) (Some [''Acme'']) (Some [''CWE-7'', ''CWE-8'']) ''Known''
     = Inr \<lparr>title = ''Monthly Count of Exploited CVEs'',
            points = [(\<lparr>year = 2023, month = 1, day = 1\<rparr>, 1)]\<rparr>"
    by code_simp
  from counts_sum_to_matching_records[of scenario "Some [2023]" "Some [''Acme'']"
      "Some [''CWE-7'', ''CWE-8'']" "''Known''"] h
  show ?thesis by simp
qed

text \<open>
  Claim C2. When weaknesses are selected, the weakness filter keeps exactly the records
  for which some selected fragment occurs as a contiguous substring of the text of the
  weakness cell, unsplit. The text \<^verbatim>\<open>CWE-79,CWE-89\<close> matches the fragment \<^verbatim>\<open>CWE-7\<close>, and
  the fragment \<^verbatim>\<open>CWE-9\<close> matches neither \<^verbatim>\<open>CWE-79\<close> nor \<^verbatim>\<open>CWE-89\<close>.
\<close>

theorem cwe_filter_is_substring_match:
  "(truthy cs \<longrightarrow>
      frame_rows (cwe_filter cs rows) =
        filter (\<lambda>r. \<exists>c \<in> set (values_of cs). \<exists>ps ss. py_str (cwes r) = ps @ c @ ss) rows) \<and>
   cwe_match [''CWE-7''] (Some ''CWE-79,CWE-89'') \<and>
   \<not> cwe_match [''CWE-9''] (Some ''CWE-79'') \<and>
   \<not> cwe_match [''CWE-9''] (Some ''CWE-89'')"
proof (intro conjI impI)
  assume "truthy cs"
  then show "frame_rows (cwe_filter cs rows) =
        filter (\<lambda>r. \<exists>c \<in> set (values_of cs). \<exists>ps ss. py_str (cwes r) = ps @ c @ ss) rows"
    by (simp add: cwe_filter_rows sublist_def)
next
  show "cwe_match [''CWE-7''] (Some ''CWE-79,CWE-89'')"
    by (simp add: cwe_match_def py_str_def)
next
  show "\<not> cwe_match [''CWE-9''] (Some ''CWE-79'')"
    by (simp add: cwe_match_def py_str_def)
next
  show "\<not> cwe_match [''CWE-9''] (Some ''CWE-89'')"
    by (simp add: cwe_match_def py_str_def)
qed

theorem cwe_filter_is_substring_match_witness:
  "truthy (Some [''CWE-7'']) \<and>
   frame_rows (cwe_filter (Some [''CWE-7'']) scenario) =
     filter (\<lambda>r. \<exists>c \<in> set [''CWE-7'']. \<exists>ps ss. py_str (cwes r) = ps @ c @ ss) scenario \<and>
   length (frame_rows (cwe_filter (Some [''CWE-7'']) scenario)) = 2"
proof -
  have t: "truthy (Some [''CWE-7''])" by simp
  from cwe_filter_is_substring_match[of "Some [''CWE-7'']" scenario] t
  have f: "frame_rows (cwe_filter (Some [''CWE-7'']) scenario) =
     filter (\<lambda>r. \<exists>c \<in> set [''CWE-7'']. \<exists>ps ss. py_str (cwes r) = ps @ c @ ss) scenario"
    by simp
  have l: "length (frame_rows (cwe_filter (Some [''CWE-7'']) scenario)) = 2"
    by code_simp
  show ?thesis by (rule conjI[OF t conjI[OF f l]])
qed

text \<open>
  Claim C3. With the year, vendor and weakness selections fixed, and the three calls
  returning, the records kept under \<^verbatim>\<open>Known\<close> are those kept under \<^verbatim>\<open>All\<close> whose
  normalised ransomware field is \<^verbatim>\<open>known\<close>, the records kept under \<^verbatim>\<open>Unknown\<close> are those
  whose field is anything else, the two are disjoint and together are the records kept
  under \<^verbatim>\<open>All\<close>; the counts of \<^verbatim>\<open>Known\<close> and \<^verbatim>\<open>Unknown\<close> add up to the count of \<^verbatim>\<open>All\<close>,
  in total and in every month.
\<close>

theorem known_unknown_partition:
  assumes K: "update_graph df ys vs cs ''Known'' = Inr gk"
      and U: "update_graph df ys vs cs ''Unknown'' = Inr gu"
      and A: "update_graph df ys vs cs ''All'' = Inr ga"
  shows "\<exists>fk fu fa.
           filtered_frame df ys vs cs ''Known'' = Inr fk \<and>
           filtered_frame df ys vs cs ''Unknown'' = Inr fu \<and>
           filtered_frame df ys vs cs ''All'' = Inr fa \<and>
           frame_rows fk = filter (\<lambda>r. knownRansomwareCampaignUse r = ''known'') (frame_rows fa) \<and>
           frame_rows fu = filter (\<lambda>r. knownRansomwareCampaignUse r \<noteq> ''known'') (frame_rows fa) \<and>
           set (frame_rows fk) \<inter> set (frame_rows fu) = {} \<and>
           set (frame_rows fk) \<union> set (frame_rows fu) = set (frame_rows fa) \<and>
           length (frame_rows fk) + length (frame_rows fu) = length (frame_rows fa) \<and>
           sum_list (map snd (points gk)) + sum_list (map snd (points gu))
             = sum_list (map snd (points ga)) \<and>
           (\<forall>t. count_at gk t + count_at gu t = count_at ga t)"
proof -
  from K obtain fk where fk: "filtered_frame df ys vs cs ''Known'' = Inr fk"
    using update_graph_returns_iff by blast
  from U obtain fu where fu: "filtered_frame df ys vs cs ''Unknown'' = Inr fu"
    using update_graph_returns_iff by blast
  from A obtain fa where fa: "filtered_frame df ys vs cs ''All'' = Inr fa"
    using update_graph_returns_iff by blast
  let ?S = "satisfies_filters ys vs cs ''All''"
  let ?kn = "\<lambda>r. knownRansomwareCampaignUse r = ''known''"
  have ra: "frame_rows fa = filter ?S df"
    using fa by (rule filtered_frame_rows)
  have rk: "frame_rows fk = filter (\<lambda>r. ?S r \<and> ?kn r) df"
    using filtered_frame_rows[OF fk] by (simp add: satisfies_Known)
  have ru: "frame_rows fu = filter (\<lambda>r. ?S r \<and> \<not> ?kn r) df"
    using filtered_frame_rows[OF fu] by (simp add: satisfies_Unknown)
  have 1: "frame_rows fk = filter ?kn (frame_rows fa)"
    by (simp add: rk ra conj_commute)
  have 2: "frame_rows fu = filter (\<lambda>r. \<not> ?kn r) (frame_rows fa)"
    by (simp add: ru ra conj_commute)
  have 3: "set (frame_rows fk) \<inter> set (frame_rows fu) = {}"
    by (auto simp: 1 2)
  have 4: "set (frame_rows fk) \<union> set (frame_rows fu) = set (frame_rows fa)"
    by (auto simp: 1 2)
  have 5: "length (frame_rows fk) + length (frame_rows fu) = length (frame_rows fa)"
    unfolding rk ru ra by (rule length_filter_split)
  have 6: "sum_list (map snd (points gk)) + sum_list (map snd (points gu))
             = sum_list (map snd (points ga))"
    using 5 by (simp add: update_graph_points[OF K] update_graph_points[OF U]
        update_graph_points[OF A] monthly_counts_sum
        filtered_frame_rows[OF fk, symmetric] filtered_frame_rows[OF fu, symmetric]
        filtered_frame_rows[OF fa, symmetric])
  have 7: "count_at gk t + count_at gu t = count_at ga t" for t
  proof -
    let ?M = "\<lambda>r. ?S r \<and> same_month (dateAdded r) t"
    have "filter (\<lambda>r. same_month (dateAdded r) t) (filter (satisfies_filters ys vs cs ''Known'') df)
            = filter (\<lambda>r. ?M r \<and> ?kn r) df"
      unfolding filter_filter satisfies_Known by (rule filter_cong) auto
    then have k: "count_at gk t = length (filter (\<lambda>r. ?M r \<and> ?kn r) df)"
      by (simp only: count_at_update_graph[OF K])
    have "filter (\<lambda>r. same_month (dateAdded r) t) (filter (satisfies_filters ys vs cs ''Unknown'') df)
            = filter (\<lambda>r. ?M r \<and> \<not> ?kn r) df"
      unfolding filter_filter satisfies_Unknown by (rule filter_cong) auto
    then have u: "count_at gu t = length (filter (\<lambda>r. ?M r \<and> \<not> ?kn r) df)"
      by (simp only: count_at_update_graph[OF U])
    have a: "count_at ga t = length (filter ?M df)"
      by (simp only: count_at_update_graph[OF A] filter_filter)
    show ?thesis
      unfolding k u a by (rule length_filter_split)
  qed
  from fk fu fa 1 2 3 4 5 6 7 show ?thesis by blast
qed

theorem known_unknown_partition_witness:
  "update_graph scenario None None None ''Known''
     = Inr \<lparr>title = ''Monthly Count of Exploited CVEs'',
            points = [(\<lparr>year = 2023, month = 1, day = 1\<rparr>, 1),
                      (\<lparr>year = 2023, month = 2, day = 1\<rparr>, 1)]\<rparr> \<and>
   update_graph scenario None None None ''Unknown''
     = Inr \<lparr>title = ''Monthly Count of Exploited CVEs'',
            points = [(\<lparr>year = 2023, month = 1, day = 1\<rparr>, 1)]\<rparr> \<and>
   update_graph scenario None None None ''All''
     = Inr \<lparr>title = ''Monthly Count of Exploited CVEs'',
            points = [(\<lparr>year = 2023, month = 1, day = 1\<rparr>, 2),
                      (\<lparr>year = 2023, month = 2, day = 1\<rparr>, 1)]\<rparr> \<and>
   (\<forall>t. count_at \<lparr>title = ''Monthly Count of Exploited CVEs'',
                   points = [(\<lparr>year = 2023, month = 1, day = 1\<rparr>, 1),
                             (\<lparr>year = 2023, month = 2, day = 1\<rparr>, 1)]\<rparr> t
      + count_at \<lparr>title = ''Monthly Count of Exploited CVEs'',
                   points = [(\<lparr>year = 2023, month = 1, day = 1\<rparr>, 1)]\<rparr> t
      = count_at \<lparr>title = ''Monthly Count of Exploited CVEs'',
                   points = [(\<lparr>year = 2023, month = 1, day = 1\<rparr>, 2),
                             (\<lparr>year = 2023, month = 2, day = 1\<rparr>, 1)]\<rparr> t)"
proof -
  have k: "update_graph scenario None None None ''Known''
     = Inr \<lparr>title = ''Monthly Count of Exploited CVEs'',
            points = [(\<lparr>year = 2023, month = 1, day = 1\<rparr>, 1),
                      (\<lparr>year = 2023, month = 2, day = 1\<rparr>, 1)]\<rparr>"
    by code_simp
  have u: "update_graph scenario None None None ''Unknown''
     = Inr \<lparr>title = ''Monthly Count of Exploited CVEs'',
            points = [(\<lparr>year = 2023, month = 1, day = 1\<rparr>, 1)]\<rparr>"
    by code_simp
  have a: "update_graph scenario None None None ''All''
     = Inr \<lparr>title = ''Monthly Count of Exploited CVEs'',
            points = [(\<lparr>year = 2023, month = 1, day = 1\<rparr>, 2),
                      (\<lparr>year = 2023, month = 2, day = 1\<rparr>, 1)]\<rparr>"
    by code_simp
  from known_unknown_partition[OF k u a]
  have c: "\<forall>t. count_at \<lparr>title = ''Monthly Count of Exploited CVEs'',
                   points = [(\<lparr>year = 2023, month = 1, day = 1\<rparr>, 1),
                             (\<lparr>year = 2023, month = 2, day = 1\<rparr>, 1)]\<rparr> t
      + count_at \<lparr>title = ''Monthly Count of Exploited CVEs'',
                   points = [(\<lparr>year = 2023, month = 1, day = 1\<rparr>, 1)]\<rparr> t
      = count_at \<lparr>title = ''Monthly Count of Exploited CVEs'',
                   points = [(\<lparr>year = 2023, month = 1, day = 1\<rparr>, 2),
                             (\<lparr>year = 2023, month = 2, day = 1\<rparr>, 1)]\<rparr> t"
    by blast
  show ?thesis by (rule conjI[OF k conjI[OF u conjI[OF a c]]])
qed

text \<open>
  Claim C4. The series of a returned figure is strictly ascending by month, so no month
  occurs twice; every point carries a count of at least 1, which is the number of
  records of its month that satisfy the selection; every record that satisfies the
  selection has exactly one point for its month; and every point is the month of some
  such record, so a month without a matching record has no point.
\<close>

theorem monthly_series_shape:
  assumes "update_graph df ys vs cs rf = Inr fig"
  shows "sorted_wrt month_before (map fst (points fig)) \<and>
         distinct (map fst (points fig)) \<and>
         (\<forall>e \<in> set (points fig).
            1 \<le> snd e \<and>
            snd e = length (filter (\<lambda>r. satisfies_filters ys vs cs rf r \<and>
                                          same_month (dateAdded r) (fst e)) df)) \<and>
         (\<forall>r \<in> set df. satisfies_filters ys vs cs rf r \<longrightarrow>
            (\<exists>!e. e \<in> set (points fig) \<and> same_month (fst e) (dateAdded r))) \<and>
         (\<forall>e \<in> set (points fig).
            \<exists>r \<in> set df. satisfies_filters ys vs cs rf r \<and> same_month (dateAdded r) (fst e))"
proof -
  let ?rows = "filter (satisfies_filters ys vs cs rf) df"
  have pts: "points fig = monthly_counts ?rows"
    using assms by (rule update_graph_points)
  have s: "sorted_wrt month_before (map fst (points fig))"
    by (simp add: pts monthly_counts_strict)
  have d: "distinct (map fst (points fig))"
    by (simp add: pts monthly_counts_distinct)
  have mem: "e \<in> set (points fig) \<longleftrightarrow>
       (\<exists>r \<in> set ?rows. fst e = to_timestamp (to_period_M (dateAdded r))) \<and>
       snd e = length (filter (\<lambda>r. same_month (dateAdded r) (fst e)) ?rows)" for e
    using monthly_counts_mem[of "fst e" "snd e" ?rows] by (simp add: pts)
  have src: "\<exists>r \<in> set df. satisfies_filters ys vs cs rf r \<and> same_month (dateAdded r) (fst e)"
    if "e \<in> set (points fig)" for e
  proof -
    from that mem obtain r where "r \<in> set ?rows" "fst e = to_timestamp (to_period_M (dateAdded r))"
      by blast
    then show ?thesis
      by (auto simp: same_month_period to_period_to_timestamp)
  qed
  have cnt: "1 \<le> snd e \<and>
            snd e = length (filter (\<lambda>r. satisfies_filters ys vs cs rf r \<and>
                                          same_month (dateAdded r) (fst e)) df)"
    if e: "e \<in> set (points fig)" for e
  proof -
    from e mem have eq: "snd e = length (filter (\<lambda>r. same_month (dateAdded r) (fst e)) ?rows)"
      by blast
    from src[OF e] obtain r where "r \<in> set df" "satisfies_filters ys vs cs rf r"
      "same_month (dateAdded r) (fst e)" by blast
    then have "r \<in> set (filter (\<lambda>r. same_month (dateAdded r) (fst e)) ?rows)" by simp
    then have "0 < length (filter (\<lambda>r. same_month (dateAdded r) (fst e)) ?rows)"
      by (metis length_pos_if_in_set)
    with eq show ?thesis by (simp add: conj_commute Suc_le_eq)
  qed
  have one: "\<exists>!e. e \<in> set (points fig) \<and> same_month (fst e) (dateAdded r)"
    if r: "r \<in> set df" "satisfies_filters ys vs cs rf r" for r
  proof -
    let ?t = "to_timestamp (to_period_M (dateAdded r))"
    let ?n = "length (filter (\<lambda>r'. same_month (dateAdded r') ?t) ?rows)"
    from r have "r \<in> set ?rows" by simp
    then have in_pts: "(?t, ?n) \<in> set (points fig)"
      using mem[of "(?t, ?n)"] by auto
    have sm: "same_month ?t (dateAdded r)"
      by (simp add: same_month_period to_period_to_timestamp)
    have uniq: "e = (?t, ?n)" if e: "e \<in> set (points fig)" "same_month (fst e) (dateAdded r)" for e
    proof -
      from e(1) mem[of e]
      have "\<exists>r' \<in> set ?rows. fst e = to_timestamp (to_period_M (dateAdded r'))"
        by simp
      then obtain r' :: kev_record where r': "fst e = to_timestamp (to_period_M (dateAdded r'))"
        by blast
      with e(2) have "to_period_M (dateAdded r') = to_period_M (dateAdded r)"
        by (simp add: same_month_period to_period_to_timestamp)
      with r' have "fst e = ?t" by simp
      moreover from e(1) mem[of e]
      have "snd e = length (filter (\<lambda>r. same_month (dateAdded r) (fst e)) ?rows)"
        by simp
      ultimately show ?thesis by (simp add: prod_eq_iff)
    qed
    show ?thesis
    proof (rule ex1I[of _ "(?t, ?n)"])
      show "(?t, ?n) \<in> set (points fig) \<and> same_month (fst (?t, ?n)) (dateAdded r)"
        using in_pts sm by simp
    next
      fix e assume "e \<in> set (points fig) \<and> same_month (fst e) (dateAdded r)"
      then show "e = (?t, ?n)" using uniq by blast
    qed
  qed
  from cnt have c: "\<forall>e \<in> set (points fig).
            1 \<le> snd e \<and>
            snd e = length (filter (\<lambda>r. satisfies_filters ys vs cs rf r \<and>
                                          same_month (dateAdded r) (fst e)) df)"
    by blast
  from one have u: "\<forall>r \<in> set df. satisfies_filters ys vs cs rf r \<longrightarrow>
            (\<exists>!e. e \<in> set (points fig) \<and> same_month (fst e) (dateAdded r))"
    by blast
  from src have b: "\<forall>e \<in> set (points fig).
            \<exists>r \<in> set df. satisfies_filters ys vs cs rf r \<and> same_month (dateAdded r) (fst e)"
    by blast
  show ?thesis
    by (rule conjI[OF s conjI[OF d conjI[OF c conjI[OF u b]]]])
qed

theorem monthly_series_shape_witness:
  "update_graph scenario None None None ''All''
     = Inr \<lparr>title = ''Monthly Count of Exploited CVEs'',
            points = [(\<lparr>year = 2023, month = 1, day = 1\<rparr>, 2),
                      (\<lparr>year = 2023, month = 2, day = 1\<rparr>, 1)]\<rparr> \<and>
   sorted_wrt month_before
     (map fst (points \<lparr>title = ''Monthly Count of Exploited CVEs'',
            points = [(\<lparr>year = 2023, month = 1, day = 1\<rparr>, 2),
                      (\<lparr>year = 2023, month = 2, day = 1\<rparr>, 1 :: nat)]\<rparr>)) \<and>
   distinct
     (map fst (points \<lparr>title = ''Monthly Count of Exploited CVEs'',
            points = [(\<lparr>year = 2023, month = 1, day = 1\<rparr>, 2),
                      (\<lparr>year = 2023, month = 2, day = 1\<rparr>, 1 :: nat)]\<rparr>))"
proof -
  have h: "update_graph scenario None None None ''All''
     = Inr \<lparr>title = ''Monthly Count of Exploited CVEs'',
            points = [(\<lparr>year = 2023, month = 1, day = 1\<rparr>, 2),
                      (\<lparr>year = 2023, month = 2, day = 1\<rparr>, 1)]\<rparr>"
    by code_simp
  from monthly_series_shape[OF h] h show ?thesis by blast
qed

text \<open>
  Claim C5. The callback is meant to return for every selection, and line 95 turns an
  empty result into the figure titled \<^verbatim>\<open>No data matches the selected filters.\<close> It does
  not always get there. In the dataset \<open>two_years\<close> no record of 2022 is of the vendor
  Globex, so lines 84 and 86 leave no row; line 88 then drops the columns, and with the
  mode \<^verbatim>\<open>Known\<close> line 91 raises \<^verbatim>\<open>KeyError\<close>, although no record satisfies the selection
  and the same selection with the mode \<^verbatim>\<open>All\<close> returns the figure without data.
\<close>

theorem keyerror_on_empty_frame:
  "update_graph two_years (Some [2022]) (Some [''Globex'']) (Some [''CWE-79'']) ''Known''
     = Inl (KeyError ''knownRansomwareCampaignUse'') \<and>
   filter (satisfies_filters (Some [2022]) (Some [''Globex'']) (Some [''CWE-79'']) ''Known'')
     two_years = [] \<and>
   update_graph two_years (Some [2022]) (Some [''Globex'']) (Some [''CWE-79'']) ''All''
     = Inr \<lparr>title = ''No data matches the selected filters.'', points = []\<rparr>"
  by code_simp

text \<open>
  Claim C6. The year filter keeps exactly the records whose year of \<^verbatim>\<open>dateAdded\<close> is one
  of the selected years, and the vendor filter exactly the records whose vendor is equal
  to one of the selected vendors; a filter with nothing selected keeps every record. With
  no weakness selected and the mode \<^verbatim>\<open>All\<close>, the frame that reaches line 95 holds exactly
  the records that pass both.
\<close>

theorem year_and_vendor_filters:
  "year_filter ys rows =
     filter (\<lambda>r. truthy ys \<longrightarrow> year (dateAdded r) \<in> set (values_of ys)) rows \<and>
   vendor_filter vs rows =
     filter (\<lambda>r. truthy vs \<longrightarrow> (\<exists>v \<in> set (values_of vs). vendorProject r = Some v)) rows \<and>
   filtered_frame df ys vs None ''All'' =
     Inr (Frame (filter (\<lambda>r. (truthy ys \<longrightarrow> year (dateAdded r) \<in> set (values_of ys)) \<and>
                              (truthy vs \<longrightarrow> (\<exists>v \<in> set (values_of vs). vendorProject r = Some v))) df))"
proof (intro conjI)
  show "year_filter ys rows =
     filter (\<lambda>r. truthy ys \<longrightarrow> year (dateAdded r) \<in> set (values_of ys)) rows"
    by (simp add: year_filter_def)
  show "vendor_filter vs rows =
     filter (\<lambda>r. truthy vs \<longrightarrow> (\<exists>v \<in> set (values_of vs). vendorProject r = Some v)) rows"
    by (simp add: vendor_filter_def isin_text_iff)
  show "filtered_frame df ys vs None ''All'' =
     Inr (Frame (filter (\<lambda>r. (truthy ys \<longrightarrow> year (dateAdded r) \<in> set (values_of ys)) \<and>
                              (truthy vs \<longrightarrow> (\<exists>v \<in> set (values_of vs). vendorProject r = Some v))) df))"
    by (simp add: filtered_frame_def ransomware_step_def cwe_filter_def year_vendor_rows)
qed

theorem year_and_vendor_filters_witness:
  "year_filter (Some [2022]) scenario = [] \<and>
   year_filter None scenario = scenario \<and>
   vendor_filter (Some [''Acme'']) scenario = take 2 scenario"
proof -
  from year_and_vendor_filters[of "Some [2022]" scenario "Some [''Acme'']" scenario]
  have "year_filter (Some [2022]) scenario =
         filter (\<lambda>r. truthy (Some [2022 :: int]) \<longrightarrow>
                      year (dateAdded r) \<in> set (values_of (Some [2022]))) scenario"
    (is "_ = ?y")
    and "vendor_filter (Some [''Acme'']) scenario =
         filter (\<lambda>r. truthy (Some [''Acme'']) \<longrightarrow>
                      (\<exists>v \<in> set (values_of (Some [''Acme''])). vendorProject r = Some v)) scenario"
    (is "_ = ?v")
    by blast+
  moreover have "?y = []" by code_simp
  moreover have "?v = take 2 scenario" by code_simp
  moreover from year_and_vendor_filters[of None scenario None scenario]
  have "year_filter None scenario = scenario" by simp
  ultimately show ?thesis by simp
qed

text \<open>
  Claim C7. Loading keeps exactly the CSV rows whose date cell can be parsed, in their
  order, and drops every other row without a report: every record of the loaded dataset
  comes from a row with a parsed date and carries that date. The callback does not look
  at the parser: with nothing selected it keeps every loaded record.
\<close>

theorem unparseable_dates_dropped_at_load:
  "map Some (load_data parse rows) = map (load_row parse) (filter (date_parses parse) rows) \<and>
   length (load_data parse rows) = length (filter (date_parses parse) rows) \<and>
   (\<forall>r \<in> set rows. \<not> date_parses parse r \<longrightarrow> load_row parse r = None) \<and>
   (\<forall>k \<in> set (load_data parse rows). \<exists>r \<in> set rows. \<exists>s.
       csv_dateAdded r = Some s \<and> parse s = Some (dateAdded k) \<and>
       vendorProject k = csv_vendorProject r \<and> cwes k = csv_cwes r \<and>
       knownRansomwareCampaignUse k = normalize_ransomware (csv_knownRansomwareCampaignUse r)) \<and>
   filtered_frame (load_data parse rows) None None None ''All'' = Inr (Frame (load_data parse rows))"
proof (intro conjI ballI impI)
  show m: "map Some (load_data parse rows) = map (load_row parse) (filter (date_parses parse) rows)"
    by (rule load_data_map)
  show "length (load_data parse rows) = length (filter (date_parses parse) rows)"
    using arg_cong[OF m, of length] by simp
next
  fix r assume "\<not> date_parses parse r"
  then show "load_row parse r = None" by (simp add: load_row_None)
next
  fix k assume "k \<in> set (load_data parse rows)"
  then obtain r where r: "r \<in> set rows" "load_row parse r = Some k"
    by (auto simp: load_data_mem)
  from load_row_Some[OF r(2)] r(1)
  show "\<exists>r \<in> set rows. \<exists>s.
       csv_dateAdded r = Some s \<and> parse s = Some (dateAdded k) \<and>
       vendorProject k = csv_vendorProject r \<and> cwes k = csv_cwes r \<and>
       knownRansomwareCampaignUse k = normalize_ransomware (csv_knownRansomwareCampaignUse r)"
    by blast
next
  show "filtered_frame (load_data parse rows) None None None ''All'' = Inr (Frame (load_data parse rows))"
    by (simp add: filtered_frame_def ransomware_step_def cwe_filter_def vendor_filter_def
        year_filter_def)
qed

theorem unparseable_dates_dropped_at_load_witness:
  "load_data example_parse example_csv =
     [\<lparr>dateAdded = \<lparr>year = 2023, month = 1, day = 15\<rparr>, vendorProject = Some ''Acme'',
       cwes = Some ''CWE-79'', knownRansomwareCampaignUse = ''known''\<rparr>,
      \<lparr>dateAdded = \<lparr>year = 2023, month = 2, day = 1\<rparr>, vendorProject = None,
       cwes = None, knownRansomwareCampaignUse = ''nan''\<rparr>] \<and>
   length (filter (date_parses example_parse) example_csv) = 2"
proof -
  have l: "load_data example_parse example_csv =
     [\<lparr>dateAdded = \<lparr>year = 2023, month = 1, day = 15\<rparr>, vendorProject = Some ''Acme'',
       cwes = Some ''CWE-79'', knownRansomwareCampaignUse = ''known''\<rparr>,
      \<lparr>dateAdded = \<lparr>year = 2023, month = 2, day = 1\<rparr>, vendorProject = None,
       cwes = None, knownRansomwareCampaignUse = ''nan''\<rparr>]"
    by code_simp
  from unparseable_dates_dropped_at_load[of example_parse example_csv]
  have "length (load_data example_parse example_csv) =
          length (filter (date_parses example_parse) example_csv)"
    by blast
  with l show ?thesis by simp
qed

text \<open>
  Claim C8. The callback leaves the loaded dataset as it was. In a store where \<^verbatim>\<open>df\<close>
  refers to the loaded frame, any sequence of calls returns, every table that was in the
  store before is unchanged afterwards, \<^verbatim>\<open>df\<close> among them, and each call returns what the
  callback computes from the loaded rows and its own selection alone, so calls with equal
  selections return equal results.
\<close>

theorem dataset_unchanged_by_queries:
  assumes "objects s df_ref = Some (Rows (Frame df))" and "df_ref < next_ref s"
  shows "\<exists>s'. run_queries df_ref qs s =
                Some (map (\<lambda>(ys, vs, cs, rf). update_graph df ys vs cs rf) qs, s') \<and>
              objects s' df_ref = Some (Rows (Frame df)) \<and>
              (\<forall>r < next_ref s. objects s' r = objects s r)"
proof -
  from run_queries_extends[OF assms, of qs]
  obtain s' where r: "run_queries df_ref qs s =
                Some (map (\<lambda>(ys, vs, cs, rf). update_graph df ys vs cs rf) qs, s')"
    and e: "extends s s'" by blast
  from e have u: "\<forall>r < next_ref s. objects s' r = objects s r"
    by (simp add: extends_def)
  with assms have "objects s' df_ref = Some (Rows (Frame df))" by simp
  with r u show ?thesis by blast
qed

theorem dataset_unchanged_by_queries_witness:
  "\<exists>s'. run_queries 0 [(None, None, None, ''All''), (None, Some [''Acme''], None, ''All''),
                        (None, None, None, ''All'')] example_store =
           Some ([Inr \<lparr>title = ''Monthly Count of Exploited CVEs'',
                       points = [(\<lparr>year = 2023, month = 1, day = 1\<rparr>, 2),
                                 (\<lparr>year = 2023, month = 2, day = 1\<rparr>, 1)]\<rparr>,
                  Inr \<lparr>title = ''Monthly Count of Exploited CVEs'',
                       points = [(\<lparr>year = 2023, month = 1, day = 1\<rparr>, 2)]\<rparr>,
                  Inr \<lparr>title = ''Monthly Count of Exploited CVEs'',
                       points = [(\<lparr>year = 2023, month = 1, day = 1\<rparr>, 2),
                                 (\<lparr>year = 2023, month = 2, day = 1\<rparr>, 1)]\<rparr>], s') \<and>
         objects s' 0 = Some (Rows (Frame scenario))"
proof -
  have o: "objects example_store 0 = Some (Rows (Frame scenario))"
    by (simp add: example_store_def)
  have n: "0 < next_ref example_store"
    by (simp add: example_store_def)
  have a: "update_graph scenario None None None ''All''
     = Inr \<lparr>title = ''Monthly Count of Exploited CVEs'',
            points = [(\<lparr>year = 2023, month = 1, day = 1\<rparr>, 2),
                      (\<lparr>year = 2023, month = 2, day = 1\<rparr>, 1)]\<rparr>"
    by code_simp
  have b: "update_graph scenario None (Some [''Acme'']) None ''All''
     = Inr \<lparr>title = ''Monthly Count of Exploited CVEs'',
            points = [(\<lparr>year = 2023, month = 1, day = 1\<rparr>, 2)]\<rparr>"
    by code_simp
  let ?qs = "[(None, None, None, ''All''), (None, Some [''Acme''], None, ''All''),
              (None, None, None, ''All'')]
             :: (int list option \<times> string list option \<times> string list option \<times> string) list"
  have m: "map (\<lambda>(ys, vs, cs, rf). update_graph scenario ys vs cs rf) ?qs =
           [Inr \<lparr>title = ''Monthly Count of Exploited CVEs'',
                 points = [(\<lparr>year = 2023, month = 1, day = 1\<rparr>, 2),
                           (\<lparr>year = 2023, month = 2, day = 1\<rparr>, 1)]\<rparr>,
            Inr \<lparr>title = ''Monthly Count of Exploited CVEs'',
                 points = [(\<lparr>year = 2023, month = 1, day = 1\<rparr>, 2)]\<rparr>,
            Inr \<lparr>title = ''Monthly Count of Exploited CVEs'',
                 points = [(\<lparr>year = 2023, month = 1, day = 1\<rparr>, 2),
                           (\<lparr>year = 2023, month = 2, day = 1\<rparr>, 1)]\<rparr>]"
    by (simp add: a b)
  from dataset_unchanged_by_queries[OF o n, of ?qs]
  obtain s' where "run_queries 0 ?qs example_store =
        Some (map (\<lambda>(ys, vs, cs, rf). update_graph scenario ys vs cs rf) ?qs, s')"
    and "objects s' 0 = Some (Rows (Frame scenario))"
    by blast
  then show ?thesis unfolding m by blast
qed

text \<open>
  Claim C9. A record whose weakness cell is missing is tested against the text \<^verbatim>\<open>nan\<close>:
  when weaknesses are selected, the filter keeps it exactly when some selected fragment is
  a substring of \<^verbatim>\<open>nan\<close>, that is one of the empty text, \<^verbatim>\<open>n\<close>, \<^verbatim>\<open>a\<close>, \<^verbatim>\<open>na\<close>, \<^verbatim>\<open>an\<close> and
  \<^verbatim>\<open>nan\<close>.
\<close>

theorem missing_cwes_match_as_nan:
  assumes "cwes r = None" and "truthy cs"
  shows "r \<in> set (frame_rows (cwe_filter cs rows)) \<longleftrightarrow>
           r \<in> set rows \<and> (\<exists>c \<in> set (values_of cs). c \<in> {'''', ''n'', ''a'', ''na'', ''an'', ''nan''})"
  using assms by (auto simp: cwe_filter_rows py_str_def sublist_nan)

theorem missing_cwes_match_as_nan_witness:
  "cwes bare_record = None \<and> truthy (Some [''CWE-79'', ''a'']) \<and> truthy (Some [''CWE-79'']) \<and>
   bare_record \<in> set (frame_rows (cwe_filter (Some [''CWE-79'', ''a'']) [bare_record])) \<and>
   bare_record \<notin> set (frame_rows (cwe_filter (Some [''CWE-79'']) [bare_record]))"
proof -
  have c: "cwes bare_record = None" by (simp add: bare_record_def)
  have t1: "truthy (Some [''CWE-79'', ''a''])" by simp
  have t2: "truthy (Some [''CWE-79''])" by simp
  from missing_cwes_match_as_nan[OF c t1, of "[bare_record]"]
  have m1: "bare_record \<in> set (frame_rows (cwe_filter (Some [''CWE-79'', ''a'']) [bare_record]))"
    by simp
  from missing_cwes_match_as_nan[OF c t2, of "[bare_record]"]
  have m2: "bare_record \<notin> set (frame_rows (cwe_filter (Some [''CWE-79'']) [bare_record]))"
    by simp
  show ?thesis by (rule conjI[OF c conjI[OF t1 conjI[OF t2 conjI[OF m1 m2]]]])
qed

text \<open>
  Claim C10. A record whose vendor is missing is dropped by the vendor filter whenever
  vendors are selected, whatever they are, and kept when none is selected.
\<close>

theorem missing_vendor_excluded:
  "(vendorProject r = None \<and> truthy vs \<longrightarrow> r \<notin> set (vendor_filter vs rows)) \<and>
   (\<not> truthy vs \<longrightarrow> vendor_filter vs rows = rows)"
  by (simp add: vendor_filter_def isin_text_def)

theorem missing_vendor_excluded_witness:
  "vendorProject bare_record = None \<and> truthy (Some [''Acme'', ''nan'']) \<and>
   bare_record \<notin> set (vendor_filter (Some [''Acme'', ''nan'']) (bare_record # scenario)) \<and>
   vendor_filter None (bare_record # scenario) = bare_record # scenario \<and>
   vendor_filter (Some []) (bare_record # scenario) = bare_record # scenario"
proof -
  have v: "vendorProject bare_record = None" by (simp add: bare_record_def)
  have t: "truthy (Some [''Acme'', ''nan''])" by simp
  from missing_vendor_excluded[of bare_record "Some [''Acme'', ''nan'']" "bare_record # scenario"] v t
  have 1: "bare_record \<notin> set (vendor_filter (Some [''Acme'', ''nan'']) (bare_record # scenario))"
    by blast
  from missing_vendor_excluded[of bare_record None "bare_record # scenario"]
  have 2: "vendor_filter None (bare_record # scenario) = bare_record # scenario"
    by simp
  from missing_vendor_excluded[of bare_record "Some []" "bare_record # scenario"]
  have 3: "vendor_filter (Some []) (bare_record # scenario) = bare_record # scenario"
    by simp
  show ?thesis by (rule conjI[OF v conjI[OF t conjI[OF 1 conjI[OF 2 3]]]])
qed

end
